theory Spec2Isabelle
  imports Main
begin

section \<open>The inline live-snippet renderer: \<open>src/stories/components/Editor.tsx\<close>\<close>

text \<open>
  The module has two parts: a top-level statement that configures the TypeScript
  defaults of the embedded editor engine (lines 5-13), and the function component
  \<open>Editor\<close> (lines 19-62), which renders a block either as a Monaco editor whose height
  follows the number of lines of its buffer, or as a whitespace-preserving \<open>span\<close>.
\<close>

subsection \<open>JavaScript values\<close>

text \<open>
  Object literals are association lists in the order the source writes their keys; a key
  the literal does not write is absent from the list. Members of the engine's enums
  (\<open>languages.typescript.ScriptTarget.ESNext\<close>) are kept by enum and member name.
\<close>

datatype JsValue =
    JString string
  | JNumber int
  | JBoolean bool
  | JEnum string string
  | JObject "(string \<times> JsValue) list"

text \<open>
  \<open>React.ReactNode\<close>, the type of \<open>children\<close>: a string, a number, a boolean, \<open>null\<close>,
  \<open>undefined\<close> (also the value of the optional prop when it is not passed), or an element
  (kept by its type name).
\<close>

datatype ReactNode =
    RString string
  | RNumber int
  | RBoolean bool
  | RNull
  | RUndefined
  | RElement string

text \<open>\<open>interface EditorProps\<close> (lines 15-18); \<open>className\<close> is optional.\<close>

record EditorProps =
  children :: ReactNode
  className :: "string option"

subsection \<open>Splitting a buffer into lines\<close>

definition CR :: char where
  "CR = CHR 0x0D"

definition LF :: char where
  "LF = CHR 0x0A"

text \<open>
  \<open>code.split(/\r\n|\r|\n/)\<close> (line 22). The pattern has three alternatives, tried in the
  written order at every position from left to right: a carriage return directly followed
  by a line feed is one separator of two characters, otherwise a lone carriage return or
  a lone line feed is a separator of one character. The pattern never matches the empty
  string, so the result of \<open>split\<close> is the list of the pieces between the separators,
  and the empty string gives the one-element list holding the empty string.
\<close>

fun split_newlines :: "string \<Rightarrow> string list" where
  "split_newlines [] = [[]]"
| "split_newlines (c # cs) =
     (if c = CR then
        (case cs of
           [] \<Rightarrow> [] # split_newlines []
         | d # ds \<Rightarrow> if d = LF then [] # split_newlines ds else [] # split_newlines (d # ds))
      else if c = LF then [] # split_newlines cs
      else (case split_newlines cs of
              [] \<Rightarrow> [[c]]
            | l # ls \<Rightarrow> (c # l) # ls))"

text \<open>\<open>const height = code.split(/\r\n|\r|\n/).length * 19 + 1\<close> (line 22).\<close>

definition editorHeight :: "string \<Rightarrow> nat" where
  "editorHeight code = length (split_newlines code) * 19 + 1"

subsection \<open>The rendered elements\<close>

text \<open>
  The props the component passes to \<open>MonacoEditor\<close> (lines 32-53). The \<open>onChange\<close> prop
  is the closure \<open>newCode => setCode(newCode)\<close>; it is the function \<open>onChange\<close> below.
\<close>

record MonacoEditorProps =
  defaultValue :: string
  value_prop :: string
  height :: nat
  width :: string
  language :: string
  options :: "(string \<times> JsValue) list"

text \<open>
  What \<open>Editor\<close> returns: a \<open>div\<close> with its style around one \<open>MonacoEditor\<close>, or a
  \<open>span\<close> with its style around the children.
\<close>

datatype Element =
    Div "(string \<times> JsValue) list" MonacoEditorProps
  | Span "(string \<times> JsValue) list" ReactNode

text \<open>The \<open>options\<close> object literal (lines 39-52).\<close>

definition editorOptions :: "(string \<times> JsValue) list" where
  "editorOptions =
     [(''scrollbar'', JObject
         [(''vertical'', JString ''hidden''),
          (''verticalHasArrows'', JBoolean False),
          (''verticalScrollbarSize'', JNumber 0),
          (''verticalSliderSize'', JNumber 0)]),
      (''scrollBeyondLastLine'', JBoolean False),
      (''theme'', JString ''vs-dark''),
      (''minimap'', JObject [(''enabled'', JBoolean False)]),
      (''folding'', JBoolean False)]"

text \<open>The style of the wrapping \<open>div\<close> (lines 26-30) and of the \<open>span\<close> (line 58).\<close>

definition divStyle :: "(string \<times> JsValue) list" where
  "divStyle =
     [(''backgroundColor'', JString ''#1e1e1e''),
      (''padding'', JString ''20px 10px''),
      (''borderRadius'', JNumber 10)]"

definition spanStyle :: "(string \<times> JsValue) list" where
  "spanStyle = [(''whiteSpace'', JString ''pre''), (''display'', JString ''inline-block'')]"

subsection \<open>The component\<close>

text \<open>
  \<open>React.useState(children)\<close> (line 20). The state of a hook belongs to one mounted
  instance of the component: \<open>None\<close> before the first render of the instance, the stored
  value afterwards. The initial value is used by the first render only.
\<close>

definition useState :: "ReactNode \<Rightarrow> ReactNode option \<Rightarrow> ReactNode \<times> ReactNode option" where
  "useState initialState hook =
     (case hook of
        None \<Rightarrow> (initialState, Some initialState)
      | Some s \<Rightarrow> (s, Some s))"

definition setCode :: "ReactNode \<Rightarrow> ReactNode option \<Rightarrow> ReactNode option" where
  "setCode newState hook = Some newState"

text \<open>\<open>onChange={newCode => setCode(newCode)}\<close> (line 35); the engine passes a string.\<close>

definition onChange :: "string \<Rightarrow> ReactNode option \<Rightarrow> ReactNode option" where
  "onChange newCode hook = setCode (RString newCode) hook"

text \<open>
  \<open>Editor\<close> (lines 19-62): one render of an instance, from its props and the state of its
  hook to the element and the state of the hook after the render. The test
  \<open>typeof code === "string"\<close> is the case on \<open>code\<close>.
\<close>

definition Editor :: "EditorProps \<Rightarrow> ReactNode option \<Rightarrow> Element \<times> ReactNode option" where
  "Editor props hook =
     (case useState (children props) hook of
        (code, hook') \<Rightarrow>
          (case code of
             RString s \<Rightarrow>
               if className props = Some ''lang-tsx'' then
                 (Div divStyle
                    \<lparr>defaultValue = s,
                     value_prop = s,
                     height = editorHeight s,
                     width = ''100%'',
                     language = ''typescript'',
                     options = editorOptions\<rparr>,
                  hook')
               else (Span spanStyle (children props), hook')
           | _ \<Rightarrow> (Span spanStyle (children props), hook')))"

text \<open>The first render of an instance.\<close>

definition mount :: "EditorProps \<Rightarrow> Element \<times> ReactNode option" where
  "mount props = Editor props None"

subsection \<open>Observations on a rendered block\<close>

datatype Classification = Live | Static

definition classify :: "EditorProps \<Rightarrow> Classification" where
  "classify props = (case fst (mount props) of Div _ _ \<Rightarrow> Live | Span _ _ \<Rightarrow> Static)"

text \<open>The height and the buffer shown by a rendered element, when it is an editor.\<close>

definition shownHeight :: "Element \<Rightarrow> nat option" where
  "shownHeight el = (case el of Div _ mp \<Rightarrow> Some (height mp) | Span _ _ \<Rightarrow> None)"

definition shownBuffer :: "Element \<Rightarrow> string option" where
  "shownBuffer el = (case el of Div _ mp \<Rightarrow> Some (value_prop mp) | Span _ _ \<Rightarrow> None)"

definition shownOptions :: "Element \<Rightarrow> (string \<times> JsValue) list option" where
  "shownOptions el = (case el of Div _ mp \<Rightarrow> Some (options mp) | Span _ _ \<Rightarrow> None)"

text \<open>\<open>typeof v === "string"\<close> on a node.\<close>

fun isString :: "ReactNode \<Rightarrow> bool" where
  "isString (RString _) = True"
| "isString _ = False"

text \<open>
  The life of one instance after its first render: each edit calls \<open>onChange\<close> and the
  instance renders again with its props.
\<close>

fun afterEdits :: "EditorProps \<Rightarrow> string list \<Rightarrow> ReactNode option \<Rightarrow> ReactNode option" where
  "afterEdits props [] hook = hook"
| "afterEdits props (newCode # rest) hook =
     afterEdits props rest (snd (Editor props (onChange newCode hook)))"

subsection \<open>The sizing rule in the words of the specification\<close>

text \<open>
  The number of line breaks of a text, a line break being one of the terminators
  \<open>\r\n\<close>, \<open>\r\<close> and \<open>\n\<close>, counted from left to right; and the two constants of the
  sizing rule, which the source writes as the literals \<open>19\<close> and \<open>1\<close>.
\<close>

fun line_breaks :: "string \<Rightarrow> nat" where
  "line_breaks [] = 0"
| "line_breaks [c] = (if c = CR \<or> c = LF then 1 else 0)"
| "line_breaks (c # d # cs) =
     (if c = CR \<and> d = LF then 1 + line_breaks cs
      else if c = CR \<or> c = LF then 1 + line_breaks (d # cs)
      else line_breaks (d # cs))"

definition lineHeightConstant :: nat where
  "lineHeightConstant = 19"

definition paddingConstant :: nat where
  "paddingConstant = 1"

subsection \<open>Inserting a line break, and joining lines\<close>

text \<open>
  The three strings the pattern of line 22 takes as a separator, and the two tests that
  say whether a carriage return and a line feed meet where two texts are put together.
\<close>

definition lineBreakStrings :: "string list" where
  "lineBreakStrings = [[CR, LF], [CR], [LF]]"

definition ends_cr :: "string \<Rightarrow> bool" where
  "ends_cr s = (s \<noteq> [] \<and> last s = CR)"

definition starts_lf :: "string \<Rightarrow> bool" where
  "starts_lf s = (case s of [] \<Rightarrow> False | c # _ \<Rightarrow> c = LF)"

text \<open>A text written from its lines with one line ending between consecutive lines.\<close>

fun join_lines :: "string \<Rightarrow> string list \<Rightarrow> string" where
  "join_lines e [] = []"
| "join_lines e [l] = l"
| "join_lines e (l # l' # ls) = l @ e @ join_lines e (l' # ls)"

definition break_free :: "string \<Rightarrow> bool" where
  "break_free l = (CR \<notin> set l \<and> LF \<notin> set l)"

subsection \<open>The module and the page\<close>

text \<open>
  The argument of \<open>languages.typescript.typescriptDefaults.setCompilerOptions\<close>
  (lines 5-13).
\<close>

definition compilerOptions :: "(string \<times> JsValue) list" where
  "compilerOptions =
     [(''target'', JEnum ''ScriptTarget'' ''ESNext''),
      (''allowNonTsExtensions'', JBoolean True),
      (''jsx'', JEnum ''JsxEmit'' ''React''),
      (''moduleResolution'', JEnum ''ModuleResolutionKind'' ''NodeJs''),
      (''module'', JEnum ''ModuleKind'' ''CommonJS''),
      (''noEmit'', JBoolean True),
      (''strict'', JBoolean True)]"

text \<open>
  The calls the engine receives, oldest first: the configuration call of the module, and
  the creation of an editor when a \<open>MonacoEditor\<close> element is mounted.
\<close>

datatype EngineCall =
    SetCompilerOptions "(string \<times> JsValue) list"
  | CreateEditor MonacoEditorProps

text \<open>
  A page: the log of the engine, whether the module has been evaluated (and with it the
  binding \<open>Editor\<close> initialised), and the mounted instances in document order, each with
  its props and the state of its own hook.
\<close>

record Process =
  engineLog :: "EngineCall list"
  moduleEvaluated :: bool
  instances :: "(EditorProps \<times> ReactNode option) list"

definition initialProcess :: Process where
  "initialProcess = \<lparr>engineLog = [], moduleEvaluated = False, instances = []\<rparr>"

text \<open>
  The body of the module, statement by statement: the configuration call (lines 5-13),
  then the definition of \<open>Editor\<close> (line 19).
\<close>

definition moduleBody :: "Process \<Rightarrow> Process" where
  "moduleBody p =
     (let p1 = p\<lparr>engineLog := engineLog p @ [SetCompilerOptions compilerOptions]\<rparr>;
          p2 = p1\<lparr>moduleEvaluated := True\<rparr>
      in p2)"

datatype Event =
    ImportModule
  | MountEditor EditorProps
  | Edit nat string

datatype PageError = ReferenceError | NoEditor

text \<open>
  One event of the single-threaded page. A module is evaluated by its first import and
  never again. An instance is mounted by rendering \<open>Editor\<close>, which needs the module's
  binding; mounting an editor element makes the engine create an editor. A user edits
  the editor of instance \<open>i\<close>: the engine calls its \<open>onChange\<close> and the instance renders
  again with its props.
\<close>

definition engineCalls :: "Element \<Rightarrow> EngineCall list" where
  "engineCalls el = (case el of Div _ mp \<Rightarrow> [CreateEditor mp] | Span _ _ \<Rightarrow> [])"

fun step :: "Event \<Rightarrow> Process \<Rightarrow> PageError + Process" where
  "step ImportModule p = (if moduleEvaluated p then Inr p else Inr (moduleBody p))"
| "step (MountEditor props) p =
     (if \<not> moduleEvaluated p then Inl ReferenceError
      else (case mount props of
              (el, hook) \<Rightarrow>
                Inr (p\<lparr>engineLog := engineLog p @ engineCalls el,
                       instances := instances p @ [(props, hook)]\<rparr>)))"
| "step (Edit i newCode) p =
     (if i < length (instances p) then
        (case instances p ! i of
           (props, hook) \<Rightarrow>
             (case fst (Editor props hook) of
                Span _ _ \<Rightarrow> Inl NoEditor
              | Div _ _ \<Rightarrow>
                  Inr (p\<lparr>instances :=
                         (instances p)[i := (props, snd (Editor props (onChange newCode hook)))]\<rparr>)))
      else Inl NoEditor)"

fun run :: "Event list \<Rightarrow> Process \<Rightarrow> PageError + Process" where
  "run [] p = Inr p"
| "run (e # es) p = (case step e p of Inl err \<Rightarrow> Inl err | Inr p' \<Rightarrow> run es p')"

definition isConfigure :: "EngineCall \<Rightarrow> bool" where
  "isConfigure c = (case c of SetCompilerOptions _ \<Rightarrow> True | CreateEditor _ \<Rightarrow> False)"

text \<open>What instance \<open>i\<close> of the page shows.\<close>

definition rendered :: "Process \<Rightarrow> nat \<Rightarrow> Element" where
  "rendered p i = (case instances p ! i of (props, hook) \<Rightarrow> fst (Editor props hook))"

subsection \<open>Mounting an element on the engine\<close>

text \<open>
  The editor element is attached to the document by the engine, which may fail; whether
  it does is the parameter \<open>attaches\<close>. \<open>Editor\<close> has no \<open>try\<close>, no error boundary and no
  other branch for that case (lines 21-61), so the error leaves the component. A \<open>span\<close>
  needs no engine.
\<close>

datatype RenderError = MountError

definition commit :: "(MonacoEditorProps \<Rightarrow> bool) \<Rightarrow> Element \<Rightarrow> RenderError + Element" where
  "commit attaches el =
     (case el of
        Div st mp \<Rightarrow> if attaches mp then Inr (Div st mp) else Inl MountError
      | Span st ch \<Rightarrow> Inr (Span st ch))"

definition mountBlock :: "(MonacoEditorProps \<Rightarrow> bool) \<Rightarrow> EditorProps \<Rightarrow> RenderError + Element" where
  "mountBlock attaches props = commit attaches (fst (mount props))"

text \<open>Reading a key of an object literal, and a key of an object under a key.\<close>

definition getKey :: "(string \<times> JsValue) list \<Rightarrow> string \<Rightarrow> JsValue option" where
  "getKey obj k = map_of obj k"

definition getKey2 :: "(string \<times> JsValue) list \<Rightarrow> string \<Rightarrow> string \<Rightarrow> JsValue option" where
  "getKey2 obj k k' =
     (case map_of obj k of
        Some (JObject inner) \<Rightarrow> map_of inner k'
      | _ \<Rightarrow> None)"

text \<open>The keys an object literal writes under a key, in the written order.\<close>

definition keysUnder :: "(string \<times> JsValue) list \<Rightarrow> string \<Rightarrow> string list" where
  "keysUnder obj k =
     (case map_of obj k of
        Some (JObject inner) \<Rightarrow> map fst inner
      | _ \<Rightarrow> [])"

section \<open>Properties\<close>

subsection \<open>Facts about the line splitter\<close>

lemma CR_neq_LF: "CR \<noteq> LF"
  by (simp add: CR_def LF_def)

lemma split_newlines_nonempty: "split_newlines s \<noteq> []"
  by (induction s rule: split_newlines.induct) (auto split: list.splits)

lemma length_split_newlines: "length (split_newlines s) = line_breaks s + 1"
proof (induction s rule: line_breaks.induct)
  case 1
  show ?case by simp
next
  case (2 c)
  show ?case by (simp add: CR_neq_LF)
next
  case (3 c d cs)
  then show ?case
    using split_newlines_nonempty [of "d # cs"]
    by (auto simp: CR_neq_LF split: list.splits simp del: split_newlines.simps(2) line_breaks.simps(3)
        simp add: split_newlines.simps(2) [of c] line_breaks.simps(3) [of c])
qed

lemma editorHeight_line_breaks: "editorHeight s = (line_breaks s + 1) * 19 + 1"
  by (simp add: editorHeight_def length_split_newlines)

lemma ends_cr_simps:
  "ends_cr [] = False" "ends_cr [c] = (c = CR)" "ends_cr (c # d # cs) = ends_cr (d # cs)"
  by (simp_all add: ends_cr_def)

lemma starts_lf_simps:
  "starts_lf [] = False" "starts_lf (c # cs) = (c = LF)"
  by (simp_all add: starts_lf_def)

lemma line_breaks_Cons:
  "line_breaks (c # cs) =
     (if c = CR \<and> starts_lf cs then 1 + line_breaks (tl cs)
      else if c = CR \<or> c = LF then 1 + line_breaks cs
      else line_breaks cs)"
  by (cases cs) (simp_all add: starts_lf_simps)

text \<open>
  Line breaks add up over a concatenation, except that a carriage return ending the
  first text and a line feed starting the second become one break.
\<close>

lemma line_breaks_append:
  "line_breaks (xs @ ys) + (if ends_cr xs \<and> starts_lf ys then 1 else 0)
     = line_breaks xs + line_breaks ys"
proof (induction xs rule: line_breaks.induct)
  case 1
  show ?case by (simp add: ends_cr_simps)
next
  case (2 c)
  show ?case
    by (cases ys)
       (simp_all add: ends_cr_simps starts_lf_simps line_breaks_Cons CR_neq_LF
          CR_neq_LF [symmetric])
next
  case (3 c d cs)
  have app: "(c # d # cs) @ ys = c # d # (cs @ ys)" "(d # cs) @ ys = d # (cs @ ys)"
    by simp_all
  consider (crlf) "c = CR \<and> d = LF"
    | (single) "\<not> (c = CR \<and> d = LF)" "c = CR \<or> c = LF"
    | (plain) "c \<noteq> CR" "c \<noteq> LF"
    by blast
  then show ?case
  proof cases
    case crlf
    have "ends_cr (c # d # cs) = ends_cr cs"
      using crlf by (cases cs) (simp_all add: ends_cr_def CR_neq_LF [symmetric])
    with crlf "3.IH"(1) show ?thesis
      by (simp only: app line_breaks.simps) simp
  next
    case single
    have "ends_cr (c # d # cs) = ends_cr (d # cs)"
      by (simp add: ends_cr_simps)
    with single "3.IH"(2) show ?thesis
      by (simp only: app line_breaks.simps) auto
  next
    case plain
    have "ends_cr (c # d # cs) = ends_cr (d # cs)"
      by (simp add: ends_cr_simps)
    with plain "3.IH"(3) show ?thesis
      by (simp only: app line_breaks.simps) auto
  qed
qed

lemma split_newlines_plain:
  "c \<noteq> CR \<Longrightarrow> c \<noteq> LF \<Longrightarrow>
   split_newlines (c # cs) = (c # hd (split_newlines cs)) # tl (split_newlines cs)"
  using split_newlines_nonempty [of cs] by (simp split: list.splits)

lemma split_newlines_prefix:
  "break_free l \<Longrightarrow>
   split_newlines (l @ rest) = (l @ hd (split_newlines rest)) # tl (split_newlines rest)"
proof (induction l)
  case Nil
  show ?case using split_newlines_nonempty [of rest] by simp
next
  case (Cons c l)
  then have c: "c \<noteq> CR" "c \<noteq> LF" and l: "break_free l"
    by (auto simp: break_free_def)
  show ?case
    using Cons.IH [OF l] by (simp add: split_newlines_plain [OF c] del: split_newlines.simps)
qed

lemma split_newlines_break:
  "e \<in> set lineBreakStrings \<Longrightarrow> \<not> (ends_cr e \<and> starts_lf rest) \<Longrightarrow>
   split_newlines (e @ rest) = [] # split_newlines rest"
  by (cases rest)
     (auto simp: lineBreakStrings_def ends_cr_def starts_lf_def CR_neq_LF
        CR_neq_LF [symmetric])

lemma starts_lf_join_lines:
  "e \<in> set lineBreakStrings \<Longrightarrow> break_free l \<Longrightarrow> ends_cr e \<Longrightarrow>
   \<not> starts_lf (join_lines e (l # ls))"
  by (cases ls; cases l)
     (auto simp: lineBreakStrings_def break_free_def ends_cr_def starts_lf_def CR_neq_LF
        CR_neq_LF [symmetric])

text \<open>Splitting gives back the lines a text was written from.\<close>

lemma split_newlines_join_lines:
  "e \<in> set lineBreakStrings \<Longrightarrow> ls \<noteq> [] \<Longrightarrow> \<forall>l \<in> set ls. break_free l \<Longrightarrow>
   split_newlines (join_lines e ls) = ls"
proof (induction e ls rule: join_lines.induct)
  case (1 e)
  then show ?case by simp
next
  case (2 e l)
  then show ?case
    using split_newlines_prefix [of l "[]"] by simp
next
  case (3 e l l' ls)
  have bf: "break_free l" "break_free l'" using 3 by simp_all
  have IH: "split_newlines (join_lines e (l' # ls)) = l' # ls"
    using 3 by simp
  have nb: "\<not> (ends_cr e \<and> starts_lf (join_lines e (l' # ls)))"
    using starts_lf_join_lines [OF "3.prems"(1) bf(2)] by blast
  have "split_newlines (e @ join_lines e (l' # ls)) = [] # l' # ls"
    using split_newlines_break [OF "3.prems"(1) nb] IH by simp
  then show ?case
    using split_newlines_prefix [OF bf(1), of "e @ join_lines e (l' # ls)"] by simp
qed

subsection \<open>Facts about one render\<close>

lemma Editor_Div:
  "Editor props hook = (Div st mp, hook') \<Longrightarrow>
   \<exists>s. fst (useState (children props) hook) = RString s
      \<and> className props = Some ''lang-tsx''
      \<and> st = divStyle
      \<and> mp = \<lparr>defaultValue = s, value_prop = s, height = editorHeight s, width = ''100%'',
               language = ''typescript'', options = editorOptions\<rparr>"
  by (auto simp: Editor_def split: prod.splits ReactNode.splits if_splits)

lemma Editor_live:
  "className props = Some ''lang-tsx'' \<Longrightarrow>
   Editor props (Some (RString s)) =
     (Div divStyle
        \<lparr>defaultValue = s, value_prop = s, height = editorHeight s, width = ''100%'',
         language = ''typescript'', options = editorOptions\<rparr>,
      Some (RString s))"
  by (simp add: Editor_def useState_def)

lemma mount_live:
  "className props = Some ''lang-tsx'' \<Longrightarrow> children props = RString s \<Longrightarrow>
   mount props =
     (Div divStyle
        \<lparr>defaultValue = s, value_prop = s, height = editorHeight s, width = ''100%'',
         language = ''typescript'', options = editorOptions\<rparr>,
      Some (RString s))"
  by (simp add: mount_def Editor_def useState_def)

lemma mount_static:
  "\<not> (className props = Some ''lang-tsx'' \<and> isString (children props)) \<Longrightarrow>
   mount props = (Span spanStyle (children props), Some (children props))"
  by (cases "children props") (auto simp: mount_def Editor_def useState_def)

subsection \<open>Classification\<close>

text \<open>
  C1, as the specification states it: a block whose tag is the live marker and whose
  text is the empty string is classified Static. The component tests the type of the
  text only (\<open>typeof code === "string"\<close>, line 21), and the empty string is a string: the
  block is classified Live.
\<close>

theorem classify_empty_text_counterexample:
  "classify \<lparr>children = RString [], className = Some ''lang-tsx''\<rparr> = Live"
  by (simp add: classify_def mount_def Editor_def useState_def)

text \<open>
  C1, amended: a block is classified Live if and only if its tag is \<open>lang-tsx\<close> and its
  text is a string, the empty string included; every other block (another tag, no tag,
  a text that is absent or not a string) is classified Static.
\<close>

theorem classify_live_iff:
  "classify props =
     (if className props = Some ''lang-tsx'' \<and> isString (children props) then Live else Static)"
proof (cases "className props = Some ''lang-tsx'' \<and> isString (children props)")
  case True
  then obtain s where "children props = RString s"
    by (cases "children props") simp_all
  with True show ?thesis
    by (simp add: classify_def mount_live)
next
  case False
  then show ?thesis
    using mount_static [OF False] by (simp add: classify_def)
qed

theorem classify_live_iff_witness:
  "classify \<lparr>children = RString ''const a = 1;'', className = Some ''lang-tsx''\<rparr> = Live
   \<and> classify \<lparr>children = RString ''echo hi'', className = Some ''lang-bash''\<rparr> = Static
   \<and> classify \<lparr>children = RUndefined, className = Some ''lang-tsx''\<rparr> = Static
   \<and> classify \<lparr>children = RString ''x'', className = None\<rparr> = Static"
  using classify_live_iff [of "\<lparr>children = RString ''const a = 1;'', className = Some ''lang-tsx''\<rparr>"]
    classify_live_iff [of "\<lparr>children = RString ''echo hi'', className = Some ''lang-bash''\<rparr>"]
    classify_live_iff [of "\<lparr>children = RUndefined, className = Some ''lang-tsx''\<rparr>"]
    classify_live_iff [of "\<lparr>children = RString ''x'', className = None\<rparr>"]
  by simp

subsection \<open>Sizing\<close>

text \<open>
  C2: whenever an instance renders an editor, the height it passes is
  (number of line breaks of the buffer it shows + 1) times the line height constant plus
  the padding constant; the block \<open>lang-tsx\<close> with the text \<open>const a = 1;\<close> is mounted
  with the height of one line.
\<close>

theorem height_formula:
  "(Editor props hook = (Div st mp, hook') \<longrightarrow>
      height mp = (line_breaks (value_prop mp) + 1) * lineHeightConstant + paddingConstant)
   \<and> shownHeight (fst (mount \<lparr>children = RString ''const a = 1;'', className = Some ''lang-tsx''\<rparr>))
       = Some (1 * lineHeightConstant + paddingConstant)"
proof (intro conjI impI)
  assume "Editor props hook = (Div st mp, hook')"
  from Editor_Div [OF this] obtain s where "value_prop mp = s" "height mp = editorHeight s"
    by auto
  then show "height mp = (line_breaks (value_prop mp) + 1) * lineHeightConstant + paddingConstant"
    by (simp add: editorHeight_line_breaks lineHeightConstant_def paddingConstant_def)
next
  show "shownHeight (fst (mount \<lparr>children = RString ''const a = 1;'', className = Some ''lang-tsx''\<rparr>))
       = Some (1 * lineHeightConstant + paddingConstant)"
    by (simp add: mount_live shownHeight_def editorHeight_def lineHeightConstant_def
        paddingConstant_def CR_def LF_def)
qed

theorem height_formula_witness:
  "Editor \<lparr>children = RString ''x'', className = Some ''lang-tsx''\<rparr>
       (Some (RString (''a'' @ [CR, LF] @ ''b'' @ [LF] @ ''c'')))
     = (Div divStyle
          \<lparr>defaultValue = ''a'' @ [CR, LF] @ ''b'' @ [LF] @ ''c'',
           value_prop = ''a'' @ [CR, LF] @ ''b'' @ [LF] @ ''c'',
           height = 58, width = ''100%'', language = ''typescript'', options = editorOptions\<rparr>,
        Some (RString (''a'' @ [CR, LF] @ ''b'' @ [LF] @ ''c'')))
   \<and> (58 :: nat) = (line_breaks (''a'' @ [CR, LF] @ ''b'' @ [LF] @ ''c'') + 1) * lineHeightConstant
        + paddingConstant"
proof -
  let ?p = "\<lparr>children = RString ''x'', className = Some ''lang-tsx''\<rparr>"
  let ?s = "''a'' @ [CR, LF] @ ''b'' @ [LF] @ ''c''"
  let ?mp = "\<lparr>defaultValue = ?s, value_prop = ?s, height = 58, width = ''100%'',
              language = ''typescript'', options = editorOptions\<rparr>"
  have h: "editorHeight ?s = 58"
    by (simp add: editorHeight_def CR_def LF_def)
  have r: "Editor ?p (Some (RString ?s)) = (Div divStyle ?mp, Some (RString ?s))"
    using Editor_live [of ?p ?s] h by simp
  from height_formula [of ?p "Some (RString ?s)" divStyle ?mp "Some (RString ?s)"] r
  have "height ?mp = (line_breaks (value_prop ?mp) + 1) * lineHeightConstant + paddingConstant"
    by blast
  with r show ?thesis by simp
qed

text \<open>
  Putting one of the three separators into a text adds exactly one line break, unless a
  carriage return meets a line feed at the place of insertion, where the two form, or
  formed, the single separator \<open>\r\n\<close>.
\<close>

lemma line_breaks_insert:
  assumes "b \<in> set lineBreakStrings"
    and "\<not> (ends_cr xs \<and> starts_lf b)"
    and "\<not> (ends_cr b \<and> starts_lf ys)"
    and "\<not> (ends_cr xs \<and> starts_lf ys)"
  shows "line_breaks (xs @ b @ ys) = line_breaks (xs @ ys) + 1"
proof -
  have b: "b \<noteq> []" "line_breaks b = 1"
    using assms(1) by (auto simp: lineBreakStrings_def CR_neq_LF)
  have s: "starts_lf (b @ ys) = starts_lf b"
    using b(1) by (cases b) (simp_all add: starts_lf_def)
  have 1: "line_breaks (b @ ys) = line_breaks b + line_breaks ys"
    using line_breaks_append [of b ys] assms(3) by simp
  have 2: "line_breaks (xs @ b @ ys) = line_breaks xs + line_breaks (b @ ys)"
    using line_breaks_append [of xs "b @ ys"] assms(2) s by simp
  have 3: "line_breaks (xs @ ys) = line_breaks xs + line_breaks ys"
    using line_breaks_append [of xs ys] assms(4) by simp
  show ?thesis
    by (simp add: 1 2 3 b)
qed

text \<open>
  C3: the height is monotonic in the line count. A buffer with one more line break than
  another is exactly one line height constant higher, the padding term being the same in
  both; the buffer \<open>a\nb\<close>, with one line break, has the height of two lines plus the
  padding, and of three lines plus the padding after \<open>\nc\<close> is appended.
\<close>

theorem height_monotonic:
  assumes "line_breaks s' = line_breaks s + 1"
  shows "editorHeight s' = editorHeight s + lineHeightConstant
       \<and> editorHeight s' - paddingConstant
           = (editorHeight s - paddingConstant) + lineHeightConstant
       \<and> editorHeight (''a'' @ [LF] @ ''b'') = 2 * lineHeightConstant + paddingConstant
       \<and> editorHeight ((''a'' @ [LF] @ ''b'') @ [LF] @ ''c'')
           = 3 * lineHeightConstant + paddingConstant"
proof -
  have "editorHeight s' = editorHeight s + lineHeightConstant"
    using assms by (simp add: editorHeight_line_breaks lineHeightConstant_def)
  moreover have "editorHeight s' - paddingConstant
      = (editorHeight s - paddingConstant) + lineHeightConstant"
    using assms
    by (simp add: editorHeight_line_breaks lineHeightConstant_def paddingConstant_def)
  moreover have "editorHeight (''a'' @ [LF] @ ''b'') = 2 * lineHeightConstant + paddingConstant"
    by (simp add: editorHeight_def lineHeightConstant_def paddingConstant_def CR_def LF_def)
  moreover have "editorHeight ((''a'' @ [LF] @ ''b'') @ [LF] @ ''c'')
           = 3 * lineHeightConstant + paddingConstant"
    by (simp add: editorHeight_def lineHeightConstant_def paddingConstant_def CR_def LF_def)
  ultimately show ?thesis by simp
qed

theorem height_monotonic_witness:
  "line_breaks (''ab'' @ [CR, LF] @ ''cd'' @ [LF] @ ''e'') = line_breaks (''ab'' @ ''cd'' @ [LF] @ ''e'') + 1
   \<and> editorHeight (''ab'' @ [CR, LF] @ ''cd'' @ [LF] @ ''e'')
       = editorHeight (''ab'' @ ''cd'' @ [LF] @ ''e'') + lineHeightConstant
   \<and> editorHeight (''ab'' @ [CR, LF] @ ''cd'' @ [LF] @ ''e'') = 58
   \<and> editorHeight (''ab'' @ ''cd'' @ [LF] @ ''e'') = 39"
proof -
  let ?s = "''ab'' @ ''cd'' @ [LF] @ ''e''"
  let ?s' = "''ab'' @ [CR, LF] @ ''cd'' @ [LF] @ ''e''"
  have h: "line_breaks ?s' = line_breaks ?s + 1"
    by (simp add: CR_def LF_def)
  have v: "editorHeight ?s' = 58" "editorHeight ?s = 39"
    by (simp_all add: editorHeight_def CR_def LF_def)
  from height_monotonic [OF h] have "editorHeight ?s' = editorHeight ?s + lineHeightConstant"
    by blast
  with h v show ?thesis by blast
qed

text \<open>
  C10: \<open>\r\n\<close> is one separator, so a text written from its lines has the same height
  whichever of \<open>\r\n\<close>, \<open>\r\<close> and \<open>\n\<close> ends its lines, namely one line height for each
  line plus the padding; the text \<open>\r\n\<close> alone has two lines, and the empty buffer has
  the height of one line.
\<close>

theorem height_line_endings:
  assumes "e \<in> set lineBreakStrings" and "e' \<in> set lineBreakStrings"
    and "ls \<noteq> []" and "\<forall>l \<in> set ls. break_free l"
  shows "editorHeight (join_lines e ls) = editorHeight (join_lines e' ls)
       \<and> editorHeight (join_lines e ls) = length ls * 19 + 1
       \<and> split_newlines [CR, LF] = [[], []]
       \<and> editorHeight [CR, LF] = 2 * 19 + 1
       \<and> editorHeight [] = 1 * 19 + 1"
  using assms by (simp add: editorHeight_def split_newlines_join_lines)

theorem height_line_endings_witness:
  "editorHeight (join_lines [CR, LF] [''a'', '''', ''b''])
     = editorHeight (join_lines [LF] [''a'', '''', ''b''])
   \<and> editorHeight (join_lines [CR, LF] [''a'', '''', ''b'']) = length [''a'', '''', ''b''] * 19 + 1
   \<and> split_newlines [CR, LF] = [[], []]
   \<and> editorHeight [CR, LF] = 2 * 19 + 1
   \<and> editorHeight [] = 1 * 19 + 1"
  using height_line_endings [of "[CR, LF]" "[LF]" "[''a'', '''', ''b'']"]
  by (simp add: lineBreakStrings_def break_free_def CR_def LF_def)

subsection \<open>The editable state of an instance\<close>

lemma afterEdits_live:
  "className props = Some ''lang-tsx'' \<Longrightarrow>
   afterEdits props edits (Some (RString s)) = Some (RString (last (s # edits)))"
proof (induction edits arbitrary: s)
  case Nil
  show ?case by simp
next
  case (Cons e es)
  have "snd (Editor props (onChange e (Some (RString s)))) = Some (RString e)"
    using Cons.prems by (simp add: onChange_def setCode_def Editor_live)
  then show ?case
    using Cons.IH [OF Cons.prems, of e] by simp
qed

text \<open>
  C4: a Live instance holds the text of its block as its state right after the mount and
  shows it; after any edits, the next render shows the text of the latest edit (the text
  of the block when there was none), whatever children the render is given.
\<close>

theorem seeded_then_latest:
  assumes "className props = Some ''lang-tsx''" and "children props = RString text"
    and "className props' = Some ''lang-tsx''"
  shows "snd (mount props) = Some (RString text)
       \<and> shownBuffer (fst (mount props)) = Some text
       \<and> shownBuffer (fst (Editor props' (afterEdits props edits (snd (mount props)))))
           = Some (last (text # edits))"
  using assms by (simp add: mount_live afterEdits_live Editor_live shownBuffer_def)

theorem seeded_then_latest_witness:
  "snd (mount \<lparr>children = RString ''a'', className = Some ''lang-tsx''\<rparr>) = Some (RString ''a'')
   \<and> shownBuffer (fst (mount \<lparr>children = RString ''a'', className = Some ''lang-tsx''\<rparr>))
       = Some ''a''
   \<and> shownBuffer
        (fst (Editor \<lparr>children = RString ''z'', className = Some ''lang-tsx''\<rparr>
           (afterEdits \<lparr>children = RString ''a'', className = Some ''lang-tsx''\<rparr>
              [''ab'', ''abc'']
              (snd (mount \<lparr>children = RString ''a'', className = Some ''lang-tsx''\<rparr>)))))
       = Some ''abc''"
proof -
  let ?p = "\<lparr>children = RString ''a'', className = Some ''lang-tsx''\<rparr>"
  let ?p' = "\<lparr>children = RString ''z'', className = Some ''lang-tsx''\<rparr>"
  have h: "className ?p = Some ''lang-tsx''" "children ?p = RString ''a''"
    "className ?p' = Some ''lang-tsx''"
    by simp_all
  have l: "last (''a'' # [''ab'', ''abc'']) = ''abc''"
    by simp
  show ?thesis
    using seeded_then_latest [OF h, of "[''ab'', ''abc'']"] unfolding l .
qed

subsection \<open>The configuration of an editor\<close>

text \<open>What the \<open>options\<close> literal holds, key by key.\<close>

lemma scrollbar_other_keys:
  "k \<notin> {''vertical'', ''verticalHasArrows'', ''verticalScrollbarSize'', ''verticalSliderSize''}
   \<Longrightarrow> getKey2 editorOptions ''scrollbar'' k = None"
proof -
  assume a: "k \<notin> {''vertical'', ''verticalHasArrows'', ''verticalScrollbarSize'', ''verticalSliderSize''}"
  have s: "map_of editorOptions ''scrollbar'' = Some (JObject
         [(''vertical'', JString ''hidden''),
          (''verticalHasArrows'', JBoolean False),
          (''verticalScrollbarSize'', JNumber 0),
          (''verticalSliderSize'', JNumber 0)])"
    by (simp add: editorOptions_def)
  have "k \<notin> fst ` set [(''vertical'', JString ''hidden''),
          (''verticalHasArrows'', JBoolean False),
          (''verticalScrollbarSize'', JNumber 0),
          (''verticalSliderSize'', JNumber 0)]"
    using a by (simp only: list.set image_insert fst_conv image_empty not_False_eq_True)
  then have "map_of [(''vertical'', JString ''hidden''),
          (''verticalHasArrows'', JBoolean False),
          (''verticalScrollbarSize'', JNumber 0),
          (''verticalSliderSize'', JNumber 0)] k = None"
    by (rule map_of_eq_None_iff [THEN iffD2])
  then show ?thesis
    by (simp only: getKey2_def s option.case JsValue.case)
qed

lemma editorOptions_values:
  "getKey2 editorOptions ''scrollbar'' ''vertical'' = Some (JString ''hidden'')"
  "getKey2 editorOptions ''scrollbar'' ''verticalHasArrows'' = Some (JBoolean False)"
  "getKey2 editorOptions ''scrollbar'' ''verticalScrollbarSize'' = Some (JNumber 0)"
  "getKey2 editorOptions ''scrollbar'' ''verticalSliderSize'' = Some (JNumber 0)"
  "keysUnder editorOptions ''scrollbar''
     = [''vertical'', ''verticalHasArrows'', ''verticalScrollbarSize'', ''verticalSliderSize'']"
  "getKey2 editorOptions ''minimap'' ''enabled'' = Some (JBoolean False)"
  "keysUnder editorOptions ''minimap'' = [''enabled'']"
  "getKey editorOptions ''folding'' = Some (JBoolean False)"
  "getKey editorOptions ''theme'' = Some (JString ''vs-dark'')"
  "getKey editorOptions ''scrollBeyondLastLine'' = Some (JBoolean False)"
  "map fst editorOptions
     = [''scrollbar'', ''scrollBeyondLastLine'', ''theme'', ''minimap'', ''folding'']"
  by (simp_all add: getKey_def getKey2_def keysUnder_def editorOptions_def)


text \<open>
  C5, as the specification states it: every instance is created with a configuration
  that suppresses the horizontal scrollbar too. The \<open>scrollbar\<close> object of lines 40-45
  has the four keys \<open>vertical\<close>, \<open>verticalHasArrows\<close>, \<open>verticalScrollbarSize\<close> and
  \<open>verticalSliderSize\<close>; it sets nothing for the horizontal scrollbar.
\<close>

theorem horizontal_scrollbar_counterexample:
  "map_option
     (\<lambda>opts. (getKey2 opts ''scrollbar'' ''horizontal'',
               getKey2 opts ''scrollbar'' ''horizontalScrollbarSize'',
               getKey2 opts ''scrollbar'' ''vertical''))
     (shownOptions
        (fst (mount \<lparr>children = RString ''const a = 1;'', className = Some ''lang-tsx''\<rparr>)))
   = Some (None, None, Some (JString ''hidden''))"
  by (simp add: mount_live shownOptions_def getKey2_def editorOptions_def)

text \<open>
  C5, amended: every editor an instance renders gets the same fixed options, whatever
  its props and state: the vertical scrollbar hidden, without arrows, and with scrollbar
  and slider of size 0; no key of the scrollbar object other than these four, hence
  nothing set for the horizontal scrollbar; the minimap disabled; folding disabled; and
  the dark theme \<open>vs-dark\<close>.
\<close>

theorem chrome_options:
  "(Editor props hook = (Div st mp, hook') \<longrightarrow>
      getKey2 (options mp) ''scrollbar'' ''vertical'' = Some (JString ''hidden'')
      \<and> getKey2 (options mp) ''scrollbar'' ''verticalHasArrows'' = Some (JBoolean False)
      \<and> getKey2 (options mp) ''scrollbar'' ''verticalScrollbarSize'' = Some (JNumber 0)
      \<and> getKey2 (options mp) ''scrollbar'' ''verticalSliderSize'' = Some (JNumber 0)
      \<and> keysUnder (options mp) ''scrollbar''
          = [''vertical'', ''verticalHasArrows'', ''verticalScrollbarSize'',
             ''verticalSliderSize'']
      \<and> (k \<notin> {''vertical'', ''verticalHasArrows'', ''verticalScrollbarSize'',
                 ''verticalSliderSize''} \<longrightarrow>
           getKey2 (options mp) ''scrollbar'' k = None)
      \<and> getKey2 (options mp) ''minimap'' ''enabled'' = Some (JBoolean False)
      \<and> keysUnder (options mp) ''minimap'' = [''enabled'']
      \<and> getKey (options mp) ''folding'' = Some (JBoolean False)
      \<and> getKey (options mp) ''theme'' = Some (JString ''vs-dark'')
      \<and> getKey (options mp) ''scrollBeyondLastLine'' = Some (JBoolean False)
      \<and> map fst (options mp)
          = [''scrollbar'', ''scrollBeyondLastLine'', ''theme'', ''minimap'', ''folding''])"
proof (intro impI)
  assume "Editor props hook = (Div st mp, hook')"
  from Editor_Div [OF this] have o: "options mp = editorOptions"
    by auto
  show "getKey2 (options mp) ''scrollbar'' ''vertical'' = Some (JString ''hidden'')
      \<and> getKey2 (options mp) ''scrollbar'' ''verticalHasArrows'' = Some (JBoolean False)
      \<and> getKey2 (options mp) ''scrollbar'' ''verticalScrollbarSize'' = Some (JNumber 0)
      \<and> getKey2 (options mp) ''scrollbar'' ''verticalSliderSize'' = Some (JNumber 0)
      \<and> keysUnder (options mp) ''scrollbar''
          = [''vertical'', ''verticalHasArrows'', ''verticalScrollbarSize'',
             ''verticalSliderSize'']
      \<and> (k \<notin> {''vertical'', ''verticalHasArrows'', ''verticalScrollbarSize'',
                 ''verticalSliderSize''} \<longrightarrow>
           getKey2 (options mp) ''scrollbar'' k = None)
      \<and> getKey2 (options mp) ''minimap'' ''enabled'' = Some (JBoolean False)
      \<and> keysUnder (options mp) ''minimap'' = [''enabled'']
      \<and> getKey (options mp) ''folding'' = Some (JBoolean False)
      \<and> getKey (options mp) ''theme'' = Some (JString ''vs-dark'')
      \<and> getKey (options mp) ''scrollBeyondLastLine'' = Some (JBoolean False)
      \<and> map fst (options mp)
          = [''scrollbar'', ''scrollBeyondLastLine'', ''theme'', ''minimap'', ''folding'']"
    unfolding o
    by (intro conjI impI scrollbar_other_keys editorOptions_values)
qed

theorem chrome_options_witness:
  "Editor \<lparr>children = RString ''x'', className = Some ''lang-tsx''\<rparr> (Some (RString ''y''))
     = (Div divStyle
          \<lparr>defaultValue = ''y'', value_prop = ''y'', height = 20, width = ''100%'',
           language = ''typescript'', options = editorOptions\<rparr>,
        Some (RString ''y''))
   \<and> getKey2 editorOptions ''scrollbar'' ''vertical'' = Some (JString ''hidden'')
   \<and> getKey2 editorOptions ''scrollbar'' ''verticalHasArrows'' = Some (JBoolean False)
   \<and> getKey2 editorOptions ''scrollbar'' ''verticalScrollbarSize'' = Some (JNumber 0)
   \<and> getKey2 editorOptions ''scrollbar'' ''verticalSliderSize'' = Some (JNumber 0)
   \<and> getKey2 editorOptions ''scrollbar'' ''horizontalScrollbarSize'' = None
   \<and> getKey2 editorOptions ''minimap'' ''enabled'' = Some (JBoolean False)
   \<and> getKey editorOptions ''folding'' = Some (JBoolean False)
   \<and> getKey editorOptions ''theme'' = Some (JString ''vs-dark'')"
proof -
  let ?p = "\<lparr>children = RString ''x'', className = Some ''lang-tsx''\<rparr>"
  let ?mp = "\<lparr>defaultValue = ''y'', value_prop = ''y'', height = 20, width = ''100%'',
              language = ''typescript'', options = editorOptions\<rparr>"
  have h: "editorHeight ''y'' = 20"
    by (simp add: editorHeight_def CR_def LF_def)
  have r: "Editor ?p (Some (RString ''y'')) = (Div divStyle ?mp, Some (RString ''y''))"
    using Editor_live [of ?p "''y''"] h by simp
  have n: "''horizontalScrollbarSize'' \<notin> {''vertical'', ''verticalHasArrows'',
             ''verticalScrollbarSize'', ''verticalSliderSize''}"
    by simp
  from chrome_options [of ?p "Some (RString ''y'')" divStyle ?mp "Some (RString ''y'')"
      "''horizontalScrollbarSize''"] r n
  show ?thesis by simp
qed

subsection \<open>Static rendering\<close>

text \<open>
  C6: a block classified Static, the empty text included, is rendered as the \<open>span\<close>
  whose style keeps white space (\<open>whiteSpace: "pre"\<close>) around the children as they were
  given, with no editor, and its mount succeeds whatever the engine does; rendering it
  again from the state the first render left gives the same element. Whatever the state
  of the hook, a render that gives a \<open>span\<close> gives this style around the children of
  that render, and a block whose tag is not the live marker always renders so: the
  static output depends on the text it is given and on nothing the instance remembers.
\<close>

theorem static_render:
  assumes "classify props = Static"
  shows "mount props = (Span spanStyle (children props), Some (children props))
       \<and> mountBlock attaches props = Inr (Span spanStyle (children props))
       \<and> spanStyle = [(''whiteSpace'', JString ''pre''), (''display'', JString ''inline-block'')]
       \<and> shownBuffer (fst (mount props)) = None
       \<and> fst (Editor props (snd (mount props))) = fst (mount props)
       \<and> (fst (Editor props hook) = Span st ch \<longrightarrow> st = spanStyle \<and> ch = children props)
       \<and> (fst (Editor q hook) = Span st ch \<longrightarrow> st = spanStyle \<and> ch = children q)
       \<and> (className q \<noteq> Some ''lang-tsx'' \<longrightarrow>
            fst (Editor q hook) = Span spanStyle (children q))"
proof -
  have n: "\<not> (className props = Some ''lang-tsx'' \<and> isString (children props))"
  proof
    assume a: "className props = Some ''lang-tsx'' \<and> isString (children props)"
    then obtain s where "children props = RString s"
      by (cases "children props") simp_all
    with a have "classify props = Live"
      by (simp add: classify_def mount_live)
    with assms show False by simp
  qed
  have m: "mount props = (Span spanStyle (children props), Some (children props))"
    by (rule mount_static [OF n])
  have r: "fst (Editor props (Some (children props))) = Span spanStyle (children props)"
    using n by (cases "children props") (auto simp: Editor_def useState_def)
  have s: "fst (Editor r hook) = Span st ch \<longrightarrow> st = spanStyle \<and> ch = children r" for r
    by (auto simp: Editor_def split: prod.splits ReactNode.splits if_splits)
  have t: "className q \<noteq> Some ''lang-tsx'' \<longrightarrow>
      fst (Editor q hook) = Span spanStyle (children q)"
    by (auto simp: Editor_def split: prod.splits ReactNode.splits)
  have a: "mountBlock attaches props = Inr (Span spanStyle (children props))"
    using m by (simp add: mountBlock_def commit_def)
  have b: "spanStyle = [(''whiteSpace'', JString ''pre''), (''display'', JString ''inline-block'')]"
    by (simp add: spanStyle_def)
  have c: "shownBuffer (fst (mount props)) = None"
    using m by (simp add: shownBuffer_def)
  have d: "fst (Editor props (snd (mount props))) = fst (mount props)"
    using m r by simp
  show ?thesis
    by (intro conjI m a b c d s t)
qed

theorem static_render_witness:
  "mount \<lparr>children = RString ''echo hi'', className = Some ''lang-bash''\<rparr>
     = (Span spanStyle (RString ''echo hi''), Some (RString ''echo hi''))
   \<and> mount \<lparr>children = RString [], className = Some ''lang-bash''\<rparr>
     = (Span spanStyle (RString []), Some (RString []))
   \<and> fst (Editor \<lparr>children = RString ''echo hi'', className = Some ''lang-bash''\<rparr>
        (snd (mount \<lparr>children = RString ''echo hi'', className = Some ''lang-bash''\<rparr>)))
     = fst (mount \<lparr>children = RString ''echo hi'', className = Some ''lang-bash''\<rparr>)
   \<and> fst (Editor \<lparr>children = RString ''echo new'', className = Some ''lang-bash''\<rparr>
        (Some (RString ''echo old'')))
     = Span spanStyle (RString ''echo new'')"
proof -
  let ?p = "\<lparr>children = RString ''echo hi'', className = Some ''lang-bash''\<rparr>"
  let ?q = "\<lparr>children = RString [], className = Some ''lang-bash''\<rparr>"
  let ?n = "\<lparr>children = RString ''echo new'', className = Some ''lang-bash''\<rparr>"
  have h: "classify ?p = Static" "classify ?q = Static"
    by (simp_all add: classify_def mount_def Editor_def useState_def)
  note sp = static_render [OF h(1), of _ "Some (RString ''echo old'')" _ _ ?n]
    and sq = static_render [OF h(2)]
  have 1: "mount ?p = (Span spanStyle (RString ''echo hi''), Some (RString ''echo hi''))"
    using sp by simp
  have 2: "mount ?q = (Span spanStyle (RString []), Some (RString []))"
    using sq by simp
  have 3: "fst (Editor ?p (snd (mount ?p))) = fst (mount ?p)"
    using sp by blast
  have "className ?n \<noteq> Some ''lang-tsx'' \<longrightarrow>
      fst (Editor ?n (Some (RString ''echo old''))) = Span spanStyle (children ?n)"
    using sp by blast
  then have 4: "fst (Editor ?n (Some (RString ''echo old''))) = Span spanStyle (RString ''echo new'')"
    by simp
  from 1 2 3 4 show ?thesis
    by blast
qed

subsection \<open>The module and its instances\<close>

lemma engineCalls_mount:
  "\<exists>mps. engineCalls (fst (mount props)) = map CreateEditor mps"
proof (cases "fst (mount props)")
  case (Div st mp)
  then have "engineCalls (fst (mount props)) = map CreateEditor [mp]"
    by (simp add: engineCalls_def)
  then show ?thesis by blast
next
  case (Span st ch)
  then have "engineCalls (fst (mount props)) = map CreateEditor []"
    by (simp add: engineCalls_def)
  then show ?thesis by blast
qed

text \<open>
  The invariant of a page: before the module is evaluated the engine has received
  nothing and no instance exists; afterwards the log of the engine is the one
  configuration call followed by editor creations only.
\<close>

lemma step_ordered:
  assumes "step e p = Inr p'"
    and "if moduleEvaluated p
         then \<exists>mps. engineLog p = SetCompilerOptions compilerOptions # map CreateEditor mps
         else engineLog p = [] \<and> instances p = []"
  shows "(if moduleEvaluated p'
          then \<exists>mps. engineLog p' = SetCompilerOptions compilerOptions # map CreateEditor mps
          else engineLog p' = [] \<and> instances p' = [])
       \<and> moduleEvaluated p' = (moduleEvaluated p \<or> e = ImportModule)"
proof (cases e)
  case ImportModule
  show ?thesis
  proof (cases "moduleEvaluated p")
    case True
    with assms ImportModule show ?thesis by auto
  next
    case False
    with assms ImportModule have "p' = moduleBody p" "engineLog p = []"
      by auto
    then have "engineLog p' = SetCompilerOptions compilerOptions # map CreateEditor []"
      "moduleEvaluated p'"
      by (simp_all add: moduleBody_def)
    with ImportModule show ?thesis by auto
  qed
next
  case (MountEditor props)
  with assms(1) have ev: "moduleEvaluated p"
    by (auto split: if_splits)
  with assms(1) MountEditor
  have p': "p' = p\<lparr>engineLog := engineLog p @ engineCalls (fst (mount props)),
                    instances := instances p @ [(props, snd (mount props))]\<rparr>"
    by (auto split: prod.splits)
  from ev assms(2) obtain mps
    where l: "engineLog p = SetCompilerOptions compilerOptions # map CreateEditor mps"
    by auto
  obtain mps' where "engineCalls (fst (mount props)) = map CreateEditor mps'"
    using engineCalls_mount by blast
  with l p' have "\<exists>m. engineLog p' = SetCompilerOptions compilerOptions # map CreateEditor m"
    by (intro exI [of _ "mps @ mps'"]) simp
  moreover have "moduleEvaluated p'"
    using p' ev by simp
  ultimately show ?thesis
    using ev by simp
next
  case (Edit i newCode)
  with assms(1) have i: "i < length (instances p)"
    by (auto split: if_splits)
  with assms(1) Edit have "engineLog p' = engineLog p" "moduleEvaluated p' = moduleEvaluated p"
    by (auto split: prod.splits Element.splits)
  moreover have "moduleEvaluated p"
    using i assms(2) by (auto split: if_splits)
  ultimately show ?thesis
    using assms(2) Edit by auto
qed

lemma run_ordered:
  assumes "run es p = Inr p'"
    and "if moduleEvaluated p
         then \<exists>mps. engineLog p = SetCompilerOptions compilerOptions # map CreateEditor mps
         else engineLog p = [] \<and> instances p = []"
  shows "(if moduleEvaluated p'
          then \<exists>mps. engineLog p' = SetCompilerOptions compilerOptions # map CreateEditor mps
          else engineLog p' = [] \<and> instances p' = [])
       \<and> moduleEvaluated p' = (moduleEvaluated p \<or> ImportModule \<in> set es)"
  using assms
proof (induction es arbitrary: p)
  case Nil
  then show ?case by (auto split: if_splits)
next
  case (Cons e es)
  from Cons.prems(1) obtain q where q: "step e p = Inr q" "run es q = Inr p'"
    by (auto split: sum.splits)
  from step_ordered [OF q(1) Cons.prems(2)]
  have 1: "if moduleEvaluated q
          then \<exists>mps. engineLog q = SetCompilerOptions compilerOptions # map CreateEditor mps
          else engineLog q = [] \<and> instances q = []"
    and 2: "moduleEvaluated q = (moduleEvaluated p \<or> e = ImportModule)"
    by blast+
  from Cons.IH [OF q(2) 1] 2 show ?case by auto
qed

text \<open>
  C7: on every page that has imported the module, however often, and mounted and edited
  any instances, the engine has received the configuration call exactly once, as the
  first of its calls, before every creation of an editor; on a page that has not
  imported the module the engine has received nothing and no instance exists. The one
  call passes the record that fixes the target, the module kind, the module resolution,
  the JSX mode, the no-emit flag and the strictness flag.
\<close>

theorem configured_once_before_instances:
  assumes "run es initialProcess = Inr p"
  shows "(if ImportModule \<in> set es
          then \<exists>mps. engineLog p = SetCompilerOptions compilerOptions # map CreateEditor mps
          else engineLog p = [] \<and> instances p = [])
       \<and> getKey compilerOptions ''target'' = Some (JEnum ''ScriptTarget'' ''ESNext'')
       \<and> getKey compilerOptions ''module'' = Some (JEnum ''ModuleKind'' ''CommonJS'')
       \<and> getKey compilerOptions ''moduleResolution''
           = Some (JEnum ''ModuleResolutionKind'' ''NodeJs'')
       \<and> getKey compilerOptions ''jsx'' = Some (JEnum ''JsxEmit'' ''React'')
       \<and> getKey compilerOptions ''noEmit'' = Some (JBoolean True)
       \<and> getKey compilerOptions ''strict'' = Some (JBoolean True)"
proof -
  have "if moduleEvaluated initialProcess
        then \<exists>mps. engineLog initialProcess
               = SetCompilerOptions compilerOptions # map CreateEditor mps
        else engineLog initialProcess = [] \<and> instances initialProcess = []"
    by (simp add: initialProcess_def)
  from run_ordered [OF assms this]
  have "if ImportModule \<in> set es
        then \<exists>mps. engineLog p = SetCompilerOptions compilerOptions # map CreateEditor mps
        else engineLog p = [] \<and> instances p = []"
    by (simp add: initialProcess_def)
  then show ?thesis
    by (simp add: getKey_def compilerOptions_def)
qed

theorem configured_once_before_instances_witness:
  "(case run [ImportModule,
              MountEditor \<lparr>children = RString ''const a = 1;'', className = Some ''lang-tsx''\<rparr>,
              ImportModule,
              MountEditor \<lparr>children = RString ''echo hi'', className = Some ''lang-bash''\<rparr>,
              Edit 0 ''const a = 2;'',
              MountEditor \<lparr>children = RString ''let b;'', className = Some ''lang-tsx''\<rparr>]
          initialProcess of
      Inl err \<Rightarrow> False
    | Inr p \<Rightarrow>
        (\<exists>mps. engineLog p = SetCompilerOptions compilerOptions # map CreateEditor mps)
        \<and> length (engineLog p) = 3)"
proof -
  let ?es = "[ImportModule,
              MountEditor \<lparr>children = RString ''const a = 1;'', className = Some ''lang-tsx''\<rparr>,
              ImportModule,
              MountEditor \<lparr>children = RString ''echo hi'', className = Some ''lang-bash''\<rparr>,
              Edit 0 ''const a = 2;'',
              MountEditor \<lparr>children = RString ''let b;'', className = Some ''lang-tsx''\<rparr>]"
  obtain p where p: "run ?es initialProcess = Inr p" "length (engineLog p) = 3"
    by (simp add: initialProcess_def moduleBody_def mount_def Editor_def useState_def
        onChange_def setCode_def engineCalls_def)
  from configured_once_before_instances [OF p(1)]
  have "\<exists>mps. engineLog p = SetCompilerOptions compilerOptions # map CreateEditor mps"
    by simp
  with p show ?thesis by simp
qed

text \<open>
  C8: an edit in the editor of instance \<open>i\<close> of a page changes the state of instance
  \<open>i\<close>, which then shows the new text, and leaves every other instance \<open>j\<close> with the
  props, the state and the rendering it had.
\<close>

theorem edit_is_local:
  assumes "step (Edit i newCode) p = Inr p'" and "j \<noteq> i" and "j < length (instances p)"
  shows "instances p' ! j = instances p ! j
       \<and> rendered p' j = rendered p j
       \<and> length (instances p') = length (instances p)
       \<and> shownBuffer (rendered p' i) = Some newCode"
proof -
  from assms(1) have i: "i < length (instances p)"
    by (auto split: if_splits)
  obtain props hook where ph: "instances p ! i = (props, hook)"
    by (cases "instances p ! i")
  from assms(1) i ph obtain st mp where d: "fst (Editor props hook) = Div st mp"
    by (auto split: Element.splits)
  then have "Editor props hook = (Div st mp, snd (Editor props hook))"
    by (metis prod.collapse)
  from Editor_Div [OF this] have cn: "className props = Some ''lang-tsx''"
    by blast
  from assms(1) i ph d
  have p': "p' = p\<lparr>instances :=
                    (instances p)[i := (props, snd (Editor props (onChange newCode hook)))]\<rparr>"
    by auto
  have "instances p' ! i = (props, Some (RString newCode))"
    using p' i cn by (simp add: onChange_def setCode_def Editor_live)
  then have "shownBuffer (rendered p' i) = Some newCode"
    using cn by (simp add: rendered_def Editor_live shownBuffer_def)
  moreover have "instances p' ! j = instances p ! j"
    using p' assms(2) by simp
  ultimately show ?thesis
    using p' by (simp add: rendered_def)
qed

theorem edit_is_local_witness:
  "(case run [ImportModule,
              MountEditor \<lparr>children = RString ''const a = 1;'', className = Some ''lang-tsx''\<rparr>,
              MountEditor \<lparr>children = RString ''let b;'', className = Some ''lang-tsx''\<rparr>]
          initialProcess of
      Inl err \<Rightarrow> False
    | Inr p \<Rightarrow>
        (case step (Edit 0 ''const a = 2;'') p of
           Inl err \<Rightarrow> False
         | Inr p' \<Rightarrow>
             (1::nat) \<noteq> 0 \<and> 1 < length (instances p)
             \<and> instances p' ! 1 = instances p ! 1
             \<and> rendered p' 1 = rendered p 1
             \<and> length (instances p') = length (instances p)
             \<and> shownBuffer (rendered p' 0) = Some ''const a = 2;''
             \<and> shownBuffer (rendered p' 1) = Some ''let b;''))"
proof -
  let ?es = "[ImportModule,
              MountEditor \<lparr>children = RString ''const a = 1;'', className = Some ''lang-tsx''\<rparr>,
              MountEditor \<lparr>children = RString ''let b;'', className = Some ''lang-tsx''\<rparr>]"
  obtain p where p: "run ?es initialProcess = Inr p" "length (instances p) = 2"
    "shownBuffer (rendered p 1) = Some ''let b;''"
    by (simp add: initialProcess_def moduleBody_def mount_def Editor_def useState_def
        engineCalls_def rendered_def shownBuffer_def)
  obtain p' where p': "step (Edit 0 ''const a = 2;'') p = Inr p'"
    using p(1)
    by (auto simp add: initialProcess_def moduleBody_def mount_def Editor_def useState_def
        engineCalls_def)
  have j: "(1::nat) \<noteq> 0" "1 < length (instances p)"
    using p(2) by simp_all
  from edit_is_local [OF p' j] p p' show ?thesis by simp
qed

subsection \<open>A failing mount\<close>

text \<open>
  C9, as the specification states it: when the editor of a Live block fails to attach,
  the block is rendered as Static text instead. With an engine that fails to attach, the
  mount of a Live block ends in the error; no \<open>span\<close> is rendered.
\<close>

theorem mount_error_counterexample:
  "mountBlock (\<lambda>mp. False) \<lparr>children = RString ''const a = 1;'', className = Some ''lang-tsx''\<rparr>
     = Inl MountError
   \<and> mountBlock (\<lambda>mp. False) \<lparr>children = RString ''const a = 1;'', className = Some ''lang-tsx''\<rparr>
     \<noteq> Inr (Span spanStyle (RString ''const a = 1;''))"
  by (simp add: mountBlock_def commit_def mount_live)

text \<open>
  C9, amended: \<open>Editor\<close> has no recovery from a failing mount. A Live block is mounted as
  its editor when the engine attaches and ends in the mount error when it does not,
  never as the Static rendering; a block classified Static is mounted as its \<open>span\<close>
  whatever the engine does.
\<close>

theorem mount_error_not_recovered:
  assumes "className props = Some ''lang-tsx''" and "children props = RString s"
    and "classify props' = Static"
  shows "mountBlock attaches props =
           (if attaches \<lparr>defaultValue = s, value_prop = s, height = editorHeight s,
                         width = ''100%'', language = ''typescript'', options = editorOptions\<rparr>
            then Inr (fst (mount props)) else Inl MountError)
       \<and> mountBlock attaches props \<noteq> Inr (Span spanStyle (children props))
       \<and> mountBlock attaches props' = Inr (Span spanStyle (children props'))"
proof -
  have n: "\<not> (className props' = Some ''lang-tsx'' \<and> isString (children props'))"
  proof
    assume a: "className props' = Some ''lang-tsx'' \<and> isString (children props')"
    then obtain t where "children props' = RString t"
      by (cases "children props'") simp_all
    with a have "classify props' = Live"
      by (simp add: classify_def mount_live)
    with assms(3) show False by simp
  qed
  have "mountBlock attaches props' = Inr (Span spanStyle (children props'))"
    by (simp add: mountBlock_def commit_def mount_static [OF n])
  then show ?thesis
    using assms(1,2) by (simp add: mountBlock_def commit_def mount_live)
qed

theorem mount_error_not_recovered_witness:
  "mountBlock (\<lambda>mp. height mp < 30)
       \<lparr>children = RString (''a'' @ [LF] @ ''b''), className = Some ''lang-tsx''\<rparr>
     = Inl MountError
   \<and> mountBlock (\<lambda>mp. height mp < 30)
       \<lparr>children = RString ''echo hi'', className = Some ''lang-bash''\<rparr>
     = Inr (Span spanStyle (RString ''echo hi''))"
proof -
  let ?p = "\<lparr>children = RString (''a'' @ [LF] @ ''b''), className = Some ''lang-tsx''\<rparr>"
  let ?q = "\<lparr>children = RString ''echo hi'', className = Some ''lang-bash''\<rparr>"
  have h: "className ?p = Some ''lang-tsx''" "children ?p = RString (''a'' @ [LF] @ ''b'')"
    "classify ?q = Static"
    by (simp_all add: classify_def mount_def Editor_def useState_def)
  have e: "editorHeight (''a'' @ [LF] @ ''b'') = 39"
    by (simp add: editorHeight_def CR_def LF_def)
  from mount_error_not_recovered [OF h, of "\<lambda>mp. height mp < 30"] e show ?thesis
    by simp
qed

end
